theory Spec2Isabelle
  imports Complex_Main "HOL-Library.Word" "HOL-Library.Sublist"
begin

unbundle bit_operations_syntax

section \<open>Values of the Python program\<close>

text \<open>
  The codec of \<^verbatim>\<open>lsb_dct.py\<close> and \<^verbatim>\<open>utils.py\<close> works on NumPy arrays of
  \<^verbatim>\<open>uint8\<close> samples, on Python lists of integers used as bits, on \<^verbatim>\<open>bytes\<close> and on
  \<^verbatim>\<open>str\<close>. A sample is an 8-bit word. A bit is a Python \<^verbatim>\<open>int\<close> (the lists hold 0 and 1,
  but nothing in the language says so, hence \<open>int\<close>). An element of a \<^verbatim>\<open>bytes\<close> object
  is a number below 256. A \<^verbatim>\<open>str\<close> is a sequence of code points; the digit strings that
  \<^verbatim>\<open>format\<close> and \<^verbatim>\<open>str\<close> build only hold ASCII and are kept as \<open>string\<close>.
\<close>

type_synonym u8 = "8 word"
type_synonym bit = int
type_synonym byte = nat
type_synonym pystr = "nat list"

text \<open>
  Every \<^verbatim>\<open>raise\<close> of the two modules, and every exception of the runtime that the
  code can meet on the way, is a value. The source raises \<^verbatim>\<open>ValueError\<close> with
  different messages; one constructor stands for each raise site.
\<close>

datatype error =
    ChannelIsNone
  | LsbCapacityTooSmall
  | DctCapacityTooSmall
  | ImageIsNone
  | ExpectedBGR
  | PayloadTooLarge nat nat
  | InvalidImageArray
  | MessageTooLarge nat nat
  | HeaderReadFailed
  | UnpackError
  | UnicodeEncodeError
  | InvalidLiteral
  | ByteRangeError

text \<open>
  A single-channel array of shape \<open>(rows, cols)\<close> with its flat row-major buffer, and
  an image of shape \<open>(height, width, length planes)\<close>, one flat buffer for each
  channel in the order blue, green, red. Arrays with another number of dimensions
  are outside this type.
\<close>

record channel =
  rows :: nat
  cols :: nat
  px :: "u8 list"

record image =
  height :: nat
  width :: nat
  planes :: "u8 list list"

definition channel_size :: "channel \<Rightarrow> nat" where
  "channel_size ch = rows ch * cols ch"

definition image_size :: "image \<Rightarrow> nat" where
  "image_size img = height img * width img * length (planes img)"

text \<open>What NumPy guarantees of an array: the buffer has as many samples as the shape says.\<close>

definition wf_channel :: "channel \<Rightarrow> bool" where
  "wf_channel ch \<longleftrightarrow> length (px ch) = rows ch * cols ch"

definition wf_image :: "image \<Rightarrow> bool" where
  "wf_image img \<longleftrightarrow> list_all (\<lambda>p. length p = height img * width img) (planes img)"

definition bgr_image :: "image \<Rightarrow> bool" where
  "bgr_image img \<longleftrightarrow> wf_image img \<and> length (planes img) = 3"

definition blue :: "image \<Rightarrow> u8 list" where
  "blue img = planes img ! 0"

definition green :: "image \<Rightarrow> u8 list" where
  "green img = planes img ! 1"

definition red :: "image \<Rightarrow> u8 list" where
  "red img = planes img ! 2"

text \<open>
  \<^verbatim>\<open>cv2.split\<close> gives one array of shape \<open>(height, width)\<close> for each channel, and
  no array at all for an empty image; \<^verbatim>\<open>cv2.merge\<close> puts channels of one shape together.
\<close>

definition cv_split :: "image \<Rightarrow> channel list" where
  "cv_split img =
     (if image_size img = 0 then []
      else map (\<lambda>p. \<lparr>rows = height img, cols = width img, px = p\<rparr>) (planes img))"

definition cv_merge :: "channel \<Rightarrow> channel \<Rightarrow> channel \<Rightarrow> image" where
  "cv_merge b g r = \<lparr>height = rows b, width = cols b, planes = [px b, px g, px r]\<rparr>"

section \<open>Digit strings\<close>

text \<open>
  \<^verbatim>\<open>format(n, 'b')\<close> for \<open>n \<ge> 0\<close>: the binary digits, most significant first, and
  \<^verbatim>\<open>format(n, '0Wb')\<close>: the same, filled with zeros on the left up to width \<open>W\<close>
  (a minimum width: a longer digit string is not cut).
\<close>

definition digit_char :: "nat \<Rightarrow> char" where
  "digit_char d = ''0123456789'' ! d"

fun bin_str :: "nat \<Rightarrow> string" where
  "bin_str n = (if n < 2 then [digit_char n] else bin_str (n div 2) @ [digit_char (n mod 2)])"

definition format_b :: "nat \<Rightarrow> nat \<Rightarrow> string" where
  "format_b w n = replicate (w - length (bin_str n)) (CHR ''0'') @ bin_str n"

text \<open>\<^verbatim>\<open>int(c)\<close> for a one-character string holding a decimal digit.\<close>

definition int_of_digit :: "char \<Rightarrow> int" where
  "int_of_digit c = int (of_char c) - 48"

text \<open>\<^verbatim>\<open>str(i)\<close> for an integer: its decimal digits, after a minus sign when negative.\<close>

fun dec_str :: "nat \<Rightarrow> string" where
  "dec_str n = (if n < 10 then [digit_char n] else dec_str (n div 10) @ [digit_char (n mod 10)])"

definition py_str :: "int \<Rightarrow> string" where
  "py_str i = (if i < 0 then CHR ''-'' # dec_str (nat (- i)) else dec_str (nat i))"

text \<open>
  \<^verbatim>\<open>int(s, 2)\<close> on a string of the characters \<^verbatim>\<open>str\<close> produces (a minus sign and
  decimal digits): an optional sign, then at least one digit, each 0 or 1; anything
  else raises \<^verbatim>\<open>ValueError\<close>.
\<close>

definition bin_value :: "string \<Rightarrow> nat" where
  "bin_value ds = foldl (\<lambda>a c. 2 * a + (if c = CHR ''1'' then 1 else 0)) 0 ds"

definition bin_digits_ok :: "string \<Rightarrow> bool" where
  "bin_digits_ok ds \<longleftrightarrow> ds \<noteq> [] \<and> list_all (\<lambda>c. c = CHR ''0'' \<or> c = CHR ''1'') ds"

definition py_int2 :: "string \<Rightarrow> error + int" where
  "py_int2 s =
     (case s of
        [] \<Rightarrow> Inl InvalidLiteral
      | c # r \<Rightarrow>
          if c = CHR ''-'' then
            (if bin_digits_ok r then Inr (- int (bin_value r)) else Inl InvalidLiteral)
          else
            (if bin_digits_ok s then Inr (int (bin_value s)) else Inl InvalidLiteral))"

text \<open>\<^verbatim>\<open>int(''.join(map(str, bits)), 2)\<close>\<close>

definition int_of_bits :: "bit list \<Rightarrow> error + int" where
  "int_of_bits bits = py_int2 (concat (map py_str bits))"

section \<open>lsb\_dct.py: bytes and bits\<close>

text \<open>\<^verbatim>\<open>[int(bit) for byte in data for bit in format(byte, '08b')]\<close>\<close>

definition text_to_bits :: "byte list \<Rightarrow> bit list" where
  "text_to_bits data = concat (map (\<lambda>byte. map int_of_digit (format_b 8 byte)) data)"

text \<open>
  The loop of \<^verbatim>\<open>bits_to_text\<close>: chunks of eight, left to right; a chunk shorter than
  eight ends the loop. \<^verbatim>\<open>bytes(byte_values)\<close> wants every value in \<open>range(256)\<close>.
\<close>

fun byte_values :: "bit list \<Rightarrow> error + int list" where
  "byte_values bits =
     (if length bits < 8 then Inr []
      else
        (case int_of_bits (take 8 bits) of
           Inl e \<Rightarrow> Inl e
         | Inr v \<Rightarrow>
             (case byte_values (drop 8 bits) of
                Inl e \<Rightarrow> Inl e
              | Inr vs \<Rightarrow> Inr (v # vs))))"

definition py_bytes :: "int list \<Rightarrow> error + byte list" where
  "py_bytes vs =
     (if list_all (\<lambda>v. 0 \<le> v \<and> v < 256) vs then Inr (map nat vs) else Inl ByteRangeError)"

section \<open>UTF-8, as the Python runtime encodes and decodes it\<close>

text \<open>
  \<^verbatim>\<open>s.encode('utf-8')\<close>: one to four bytes for each code point; a surrogate code point
  raises \<^verbatim>\<open>UnicodeEncodeError\<close>. (A \<^verbatim>\<open>str\<close> holds no code point from \<open>0x110000\<close> on;
  the model gives the same error there.)
\<close>

definition utf8_encode_cp :: "nat \<Rightarrow> error + byte list" where
  "utf8_encode_cp c =
     (if c < 0x80 then Inr [c]
      else if c < 0x800 then Inr [0xC0 + c div 64, 0x80 + c mod 64]
      else if c < 0x10000 then
        (if 0xD800 \<le> c \<and> c \<le> 0xDFFF then Inl UnicodeEncodeError
         else Inr [0xE0 + c div 4096, 0x80 + c div 64 mod 64, 0x80 + c mod 64])
      else if c < 0x110000 then
        Inr [0xF0 + c div 262144, 0x80 + c div 4096 mod 64, 0x80 + c div 64 mod 64,
             0x80 + c mod 64]
      else Inl UnicodeEncodeError)"

fun utf8_encode :: "pystr \<Rightarrow> error + byte list" where
  "utf8_encode [] = Inr []"
| "utf8_encode (c # cs) =
     (case utf8_encode_cp c of
        Inl e \<Rightarrow> Inl e
      | Inr bs \<Rightarrow> (case utf8_encode cs of Inl e \<Rightarrow> Inl e | Inr r \<Rightarrow> Inr (bs @ r)))"

text \<open>
  \<^verbatim>\<open>data.decode('utf-8', errors='ignore')\<close>, after CPython's decoder: a byte that
  cannot start a sequence is skipped; a start byte whose next byte cannot follow it is
  skipped alone; a sequence broken at its third or fourth byte loses the bytes read
  so far; a sequence cut off by the end of the data is dropped with it.
\<close>

definition is_cont :: "byte \<Rightarrow> bool" where
  "is_cont b \<longleftrightarrow> 0x80 \<le> b \<and> b < 0xC0"

fun utf8_decode_ignore :: "byte list \<Rightarrow> pystr" where
  "utf8_decode_ignore [] = []"
| "utf8_decode_ignore (b0 # s) =
     (if b0 < 0x80 then b0 # utf8_decode_ignore s
      else if b0 < 0xC2 then utf8_decode_ignore s
      else if b0 < 0xE0 then
        (case s of
           [] \<Rightarrow> []
         | b1 # s1 \<Rightarrow>
             if \<not> is_cont b1 then utf8_decode_ignore s
             else ((b0 - 0xC0) * 64 + (b1 - 0x80)) # utf8_decode_ignore s1)
      else if b0 < 0xF0 then
        (case s of
           [] \<Rightarrow> []
         | b1 # s1 \<Rightarrow>
             if \<not> is_cont b1 \<or> (b0 = 0xE0 \<and> b1 < 0xA0) \<or> (b0 = 0xED \<and> 0xA0 \<le> b1)
             then utf8_decode_ignore s
             else
               (case s1 of
                  [] \<Rightarrow> []
                | b2 # s2 \<Rightarrow>
                    if \<not> is_cont b2 then utf8_decode_ignore s1
                    else ((b0 - 0xE0) * 4096 + (b1 - 0x80) * 64 + (b2 - 0x80))
                           # utf8_decode_ignore s2))
      else if b0 < 0xF5 then
        (case s of
           [] \<Rightarrow> []
         | b1 # s1 \<Rightarrow>
             if \<not> is_cont b1 \<or> (b0 = 0xF0 \<and> b1 < 0x90) \<or> (b0 = 0xF4 \<and> 0x90 \<le> b1)
             then utf8_decode_ignore s
             else
               (case s1 of
                  [] \<Rightarrow> []
                | b2 # s2 \<Rightarrow>
                    if \<not> is_cont b2 then utf8_decode_ignore s1
                    else
                      (case s2 of
                         [] \<Rightarrow> []
                       | b3 # s3 \<Rightarrow>
                           if \<not> is_cont b3 then utf8_decode_ignore s2
                           else ((b0 - 0xF0) * 262144 + (b1 - 0x80) * 4096
                                   + (b2 - 0x80) * 64 + (b3 - 0x80))
                                  # utf8_decode_ignore s3)))
      else utf8_decode_ignore s)"

text \<open>\<^verbatim>\<open>bits_to_text\<close>: the bytes of the full chunks, decoded leniently.\<close>

definition bits_to_text :: "bit list \<Rightarrow> error + pystr" where
  "bits_to_text bits =
     (case byte_values bits of
        Inl e \<Rightarrow> Inl e
      | Inr vs \<Rightarrow> (case py_bytes vs of Inl e \<Rightarrow> Inl e | Inr bs \<Rightarrow> Inr (utf8_decode_ignore bs)))"

section \<open>lsb\_dct.py: the LSB plane\<close>

text \<open>
  The loop of \<^verbatim>\<open>lsb_embed\<close> over \<^verbatim>\<open>enumerate(bits)\<close>, on the flat copy that
  \<^verbatim>\<open>flatten()\<close> returned: \<^verbatim>\<open>flat[idx] = (flat[idx] & 0xFE) | (bit & 1)\<close>.
\<close>

fun lsb_write :: "u8 list \<Rightarrow> nat \<Rightarrow> bit list \<Rightarrow> u8 list" where
  "lsb_write flat idx [] = flat"
| "lsb_write flat idx (b # bs) =
     lsb_write (flat[idx := (flat ! idx AND 0xFE) OR word_of_int (b AND 1)]) (Suc idx) bs"

definition lsb_embed :: "channel option \<Rightarrow> bit list \<Rightarrow> nat \<Rightarrow> error + channel" where
  "lsb_embed channel_image message_bits start =
     (case channel_image of
        None \<Rightarrow> Inl ChannelIsNone
      | Some ch \<Rightarrow>
          if start + length message_bits > length (px ch) then Inl LsbCapacityTooSmall
          else Inr (ch\<lparr>px := lsb_write (px ch) start message_bits\<rparr>))"

definition lsb_extract :: "channel \<Rightarrow> nat \<Rightarrow> nat \<Rightarrow> bit list" where
  "lsb_extract channel_image len start =
     (let flat = px channel_image in
      if start \<ge> length flat then []
      else map (\<lambda>i. uint (flat ! (start + i) AND 1)) [0..<min len (length flat - start)])"

section \<open>utils.py: the length prefix\<close>

text \<open>\<^verbatim>\<open>[int(b) for b in f"{n_bytes:032b}"]\<close>\<close>

definition len_prefix_bits :: "nat \<Rightarrow> bit list" where
  "len_prefix_bits n_bytes = map int_of_digit (format_b 32 n_bytes)"

section \<open>lsb\_dct.py: the DCT plane\<close>

text \<open>
  \<^verbatim>\<open>cv2.dct\<close> and \<^verbatim>\<open>cv2.idct\<close> belong to OpenCV, not to this repository: the
  functions below take them as a parameter. A \<^verbatim>\<open>float32\<close> block is a function from
  row and column to a real number (only indices below 8 are read); rounding errors
  of \<^verbatim>\<open>float32\<close> arithmetic are not modelled.
\<close>

type_synonym block = "nat \<Rightarrow> nat \<Rightarrow> real"

record cv2 =
  dct :: "block \<Rightarrow> block"
  idct :: "block \<Rightarrow> block"

text \<open>
  Python's \<^verbatim>\<open>round\<close> (also on a NumPy scalar) rounds to the nearest integer and a
  tie to the even neighbour; \<^verbatim>\<open>int(round(coeff)) & 1\<close> is its parity, 0 or 1.
\<close>

definition py_round :: "real \<Rightarrow> int" where
  "py_round x =
     (let f = \<lfloor>x\<rfloor>; d = x - of_int f in
      if d < 1 / 2 then f
      else if 1 / 2 < d then f + 1
      else if even f then f else f + 1)"

definition coeff_parity :: "real \<Rightarrow> int" where
  "coeff_parity coeff = py_round coeff AND 1"

text \<open>The adjustment of \<^verbatim>\<open>dct_embed\<close>: \<^verbatim>\<open>coeff + 1.0 if coeff >= 0 else coeff - 1.0\<close>.\<close>

definition nudge :: "real \<Rightarrow> real" where
  "nudge coeff = (if coeff \<ge> 0 then coeff + 1 else coeff - 1)"

definition set_coeff :: "block \<Rightarrow> nat \<Rightarrow> nat \<Rightarrow> real \<Rightarrow> block" where
  "set_coeff blk i j v = blk(i := (blk i)(j := v))"

text \<open>\<^verbatim>\<open>astype(np.float32)\<close> of a sample, and \<^verbatim>\<open>np.clip(v, 0, 255).astype(np.uint8)\<close>,
  which cuts the fraction off.\<close>

definition to_float :: "u8 \<Rightarrow> real" where
  "to_float s = real (unat s)"

definition to_uint8 :: "real \<Rightarrow> u8" where
  "to_uint8 v = word_of_int \<lfloor>max 0 (min 255 v)\<rfloor>"

text \<open>
  The slice \<^verbatim>\<open>embedded[sy:sy+8, sx:sx+8]\<close> of an array of width \<open>w\<close> kept as a flat
  row-major list: reading it, and assigning a block to it.
\<close>

definition read_block :: "real list \<Rightarrow> nat \<Rightarrow> nat \<Rightarrow> nat \<Rightarrow> block" where
  "read_block embedded w sy sx = (\<lambda>i j. embedded ! ((sy + i) * w + (sx + j)))"

definition in_block :: "nat \<Rightarrow> nat \<Rightarrow> nat \<Rightarrow> nat \<Rightarrow> bool" where
  "in_block sy sx y x \<longleftrightarrow> sy \<le> y \<and> y < sy + 8 \<and> sx \<le> x \<and> x < sx + 8"

definition write_block :: "real list \<Rightarrow> nat \<Rightarrow> nat \<Rightarrow> nat \<Rightarrow> block \<Rightarrow> real list" where
  "write_block embedded w sy sx blk =
     map (\<lambda>k. if in_block sy sx (k div w) (k mod w) then blk (k div w - sy) (k mod w - sx)
               else embedded ! k)
       [0..<length embedded]"

text \<open>The two nested \<^verbatim>\<open>for\<close> loops visit the blocks row by row.\<close>

definition block_coords :: "nat \<Rightarrow> nat \<Rightarrow> (nat \<times> nat) list" where
  "block_coords blocks_y blocks_x =
     concat (map (\<lambda>b_y. map (\<lambda>b_x. (b_y, b_x)) [0..<blocks_x]) [0..<blocks_y])"

fun dct_embed_blocks ::
  "cv2 \<Rightarrow> nat \<Rightarrow> bit list \<Rightarrow> (nat \<times> nat) list \<Rightarrow> nat \<Rightarrow> real list \<Rightarrow> real list" where
  "dct_embed_blocks cv w bits [] bit_idx embedded = embedded"
| "dct_embed_blocks cv w bits ((b_y, b_x) # rest) bit_idx embedded =
     (if bit_idx \<ge> length bits then embedded
      else
        let sy = b_y * 8; sx = b_x * 8;
            blk = read_block embedded w sy sx;
            dct_block = dct cv blk;
            coeff = dct_block 4 4;
            desired = bits ! bit_idx;
            dct_block' = (if coeff_parity coeff \<noteq> desired
                          then set_coeff dct_block 4 4 (nudge coeff) else dct_block);
            block_recon = idct cv dct_block'
        in dct_embed_blocks cv w bits rest (Suc bit_idx)
             (write_block embedded w sy sx block_recon))"

definition dct_embed :: "cv2 \<Rightarrow> channel \<Rightarrow> bit list \<Rightarrow> nat \<Rightarrow> error + channel" where
  "dct_embed cv gray_image message_bits start_block =
     (let h = rows gray_image; w = cols gray_image;
          embedded = map to_float (px gray_image);
          blocks_y = h div 8; blocks_x = w div 8;
          total_blocks = blocks_y * blocks_x
      in if start_block + length message_bits > total_blocks then Inl DctCapacityTooSmall
         else Inr (gray_image\<lparr>px := map to_uint8
                (dct_embed_blocks cv w message_bits (block_coords blocks_y blocks_x) 0 embedded)\<rparr>))"

fun dct_extract_blocks ::
  "cv2 \<Rightarrow> channel \<Rightarrow> nat \<Rightarrow> (nat \<times> nat) list \<Rightarrow> nat \<Rightarrow> bit list \<Rightarrow> bit list" where
  "dct_extract_blocks cv gray_image len [] bit_idx extracted = extracted"
| "dct_extract_blocks cv gray_image len ((b_y, b_x) # rest) bit_idx extracted =
     (if bit_idx \<ge> len then extracted
      else
        let sy = b_y * 8; sx = b_x * 8 in
        if min 8 (rows gray_image - sy) \<noteq> 8 \<or> min 8 (cols gray_image - sx) \<noteq> 8
        then dct_extract_blocks cv gray_image len rest bit_idx extracted
        else
          let blk = read_block (map to_float (px gray_image)) (cols gray_image) sy sx;
              dct_block = dct cv blk;
              coef = dct_block 4 4
          in dct_extract_blocks cv gray_image len rest (Suc bit_idx)
               (extracted @ [coeff_parity coef]))"

definition dct_extract :: "cv2 \<Rightarrow> channel \<Rightarrow> nat \<Rightarrow> nat \<Rightarrow> bit list" where
  "dct_extract cv gray_image len start_block =
     (let h = rows gray_image; w = cols gray_image;
          blocks_y = h div 8; blocks_x = w div 8;
          total_blocks = blocks_y * blocks_x
      in if start_block \<ge> total_blocks then []
         else dct_extract_blocks cv gray_image len (block_coords blocks_y blocks_x) 0 [])"

section \<open>The transform of OpenCV, in exact arithmetic\<close>

text \<open>
  What \<^verbatim>\<open>cv2.dct\<close> and \<^verbatim>\<open>cv2.idct\<close> compute on an 8 by 8 block, were their arithmetic
  exact: the orthonormal DCT-II and its inverse. It is one instance of the parameter
  of the functions above, used where a statement needs a concrete transform.
\<close>

definition dct_alpha :: "nat \<Rightarrow> real" where
  "dct_alpha k = (if k = 0 then sqrt (1 / 8) else 1 / 2)"

definition dct_cos :: "nat \<Rightarrow> nat \<Rightarrow> real" where
  "dct_cos x u = cos ((2 * real x + 1) * real u * pi / 16)"

definition exact_dct :: "block \<Rightarrow> block" where
  "exact_dct f =
     (\<lambda>u v. dct_alpha u * dct_alpha v * (\<Sum>x<8. \<Sum>y<8. f x y * dct_cos x u * dct_cos y v))"

definition exact_idct :: "block \<Rightarrow> block" where
  "exact_idct c =
     (\<lambda>x y. \<Sum>u<8. \<Sum>v<8. dct_alpha u * dct_alpha v * c u v * dct_cos x u * dct_cos y v)"

definition exact_cv :: cv2 where
  "exact_cv = \<lparr>dct = exact_dct, idct = exact_idct\<rparr>"

definition zero_channel :: "nat \<Rightarrow> nat \<Rightarrow> channel" where
  "zero_channel h w = \<lparr>rows = h, cols = w, px = replicate (h * w) 0\<rparr>"

section \<open>lsb\_dct.py: the hybrid allocator\<close>

definition hybrid_embed :: "cv2 \<Rightarrow> image option \<Rightarrow> bit list \<Rightarrow> error + image" where
  "hybrid_embed cv image_bgr message_bits =
     (case image_bgr of
        None \<Rightarrow> Inl ImageIsNone
      | Some img \<Rightarrow>
          if length (planes img) \<noteq> 3 then Inl ExpectedBGR
          else
            (case cv_split img of
               [b, g, r] \<Rightarrow>
                 let b_capacity = channel_size b;
                     dct_capacity = (rows g div 8) * (cols g div 8);
                     total_capacity = b_capacity + dct_capacity
                 in
                 if length message_bits > total_capacity
                 then Inl (PayloadTooLarge (length message_bits) total_capacity)
                 else if length message_bits \<le> b_capacity then
                   (case lsb_embed (Some b) message_bits 0 of
                      Inl e \<Rightarrow> Inl e
                    | Inr b_stego \<Rightarrow> Inr (cv_merge b_stego g r))
                 else
                   (case lsb_embed (Some b) (take b_capacity message_bits) 0 of
                      Inl e \<Rightarrow> Inl e
                    | Inr b_stego \<Rightarrow>
                        (case dct_embed cv g (drop b_capacity message_bits) 0 of
                           Inl e \<Rightarrow> Inl e
                         | Inr g_stego \<Rightarrow> Inr (cv_merge b_stego g_stego r)))
             | _ \<Rightarrow> Inl UnpackError))"

definition hybrid_extract :: "cv2 \<Rightarrow> image option \<Rightarrow> nat \<Rightarrow> error + bit list" where
  "hybrid_extract cv image_bgr total_length =
     (case image_bgr of
        None \<Rightarrow> Inr []
      | Some img \<Rightarrow>
          (case cv_split img of
             [b, g, r] \<Rightarrow>
               let b_capacity = channel_size b in
               if total_length \<le> b_capacity then Inr (lsb_extract b total_length 0)
               else
                 let bits_b = lsb_extract b b_capacity 0;
                     remaining = total_length - b_capacity;
                     bits_g = dct_extract cv g remaining 0
                 in Inr (bits_b @ bits_g)
           | _ \<Rightarrow> Inl UnpackError))"

section \<open>SHA-256, as \<^verbatim>\<open>hashlib.sha256(data).hexdigest()\<close> computes it\<close>

type_synonym u32 = "32 word"

definition rotr :: "nat \<Rightarrow> u32 \<Rightarrow> u32" where
  "rotr n x = drop_bit n x OR push_bit (32 - n) x"

definition sha_ch :: "u32 \<Rightarrow> u32 \<Rightarrow> u32 \<Rightarrow> u32" where
  "sha_ch x y z = (x AND y) XOR (NOT x AND z)"

definition sha_maj :: "u32 \<Rightarrow> u32 \<Rightarrow> u32 \<Rightarrow> u32" where
  "sha_maj x y z = (x AND y) XOR (x AND z) XOR (y AND z)"

definition big_sigma0 :: "u32 \<Rightarrow> u32" where
  "big_sigma0 x = rotr 2 x XOR rotr 13 x XOR rotr 22 x"

definition big_sigma1 :: "u32 \<Rightarrow> u32" where
  "big_sigma1 x = rotr 6 x XOR rotr 11 x XOR rotr 25 x"

definition small_sigma0 :: "u32 \<Rightarrow> u32" where
  "small_sigma0 x = rotr 7 x XOR rotr 18 x XOR drop_bit 3 x"

definition small_sigma1 :: "u32 \<Rightarrow> u32" where
  "small_sigma1 x = rotr 17 x XOR rotr 19 x XOR drop_bit 10 x"

text \<open>
  The round constants (the first 32 bits of the fractional parts of the cube roots of
  the first 64 primes) and the initial hash value (the same of the square roots of the
  first 8 primes).
\<close>

definition sha_k :: "u32 list" where
  "sha_k =
    [1116352408, 1899447441, 3049323471, 3921009573, 961987163, 1508970993,
     2453635748, 2870763221, 3624381080, 310598401, 607225278, 1426881987,
     1925078388, 2162078206, 2614888103, 3248222580, 3835390401, 4022224774,
     264347078, 604807628, 770255983, 1249150122, 1555081692, 1996064986,
     2554220882, 2821834349, 2952996808, 3210313671, 3336571891, 3584528711,
     113926993, 338241895, 666307205, 773529912, 1294757372, 1396182291,
     1695183700, 1986661051, 2177026350, 2456956037, 2730485921, 2820302411,
     3259730800, 3345764771, 3516065817, 3600352804, 4094571909, 275423344,
     430227734, 506948616, 659060556, 883997877, 958139571, 1322822218,
     1537002063, 1747873779, 1955562222, 2024104815, 2227730452, 2361852424,
     2428436474, 2756734187, 3204031479, 3329325298]"

definition sha_h0 :: "u32 list" where
  "sha_h0 =
    [1779033703, 3144134277, 1013904242, 2773480762,
     1359893119, 2600822924, 528734635, 1541459225]"

text \<open>Padding: the byte \<open>0x80\<close>, zeros up to 56 modulo 64, the bit length on eight bytes.\<close>

definition be_bytes8 :: "nat \<Rightarrow> byte list" where
  "be_bytes8 n = map (\<lambda>i. n div 256 ^ (7 - i) mod 256) [0..<8]"

definition sha_pad :: "byte list \<Rightarrow> byte list" where
  "sha_pad m =
     m @ [0x80] @ replicate ((119 - length m mod 64) mod 64) 0 @ be_bytes8 (8 * length m)"

fun be_words :: "byte list \<Rightarrow> u32 list" where
  "be_words (b0 # b1 # b2 # b3 # r) =
     word_of_nat (((b0 * 256 + b1) * 256 + b2) * 256 + b3) # be_words r"
| "be_words _ = []"

text \<open>The message schedule: \<open>k\<close> more words after the sixteen of the block.\<close>

fun schedule :: "nat \<Rightarrow> u32 list \<Rightarrow> u32 list" where
  "schedule 0 w = w"
| "schedule (Suc k) w =
     (let t = length w in
      schedule k (w @ [small_sigma1 (w ! (t - 2)) + w ! (t - 7)
                         + small_sigma0 (w ! (t - 15)) + w ! (t - 16)]))"

fun sha_round :: "u32 list \<Rightarrow> u32 \<times> u32 \<Rightarrow> u32 list" where
  "sha_round [a, b, c, d, e, f, g, h] (k, w) =
     (let t1 = h + big_sigma1 e + sha_ch e f g + k + w;
          t2 = big_sigma0 a + sha_maj a b c
      in [t1 + t2, a, b, c, d + t1, e, f, g])"
| "sha_round s _ = s"

definition compress :: "u32 list \<Rightarrow> byte list \<Rightarrow> u32 list" where
  "compress hs blk =
     map2 (+) hs (foldl sha_round hs (zip sha_k (schedule 48 (be_words blk))))"

fun sha_blocks :: "u32 list \<Rightarrow> byte list \<Rightarrow> u32 list" where
  "sha_blocks hs m =
     (if length m < 64 then hs else sha_blocks (compress hs (take 64 m)) (drop 64 m))"

definition sha256 :: "byte list \<Rightarrow> u32 list" where
  "sha256 m = sha_blocks sha_h0 (sha_pad m)"

definition hex_char :: "nat \<Rightarrow> char" where
  "hex_char d = ''0123456789abcdef'' ! d"

definition hex8 :: "u32 \<Rightarrow> string" where
  "hex8 x = map (\<lambda>i. hex_char (unat (drop_bit (4 * (7 - i)) x AND 15))) [0..<8]"

definition sha256_hexdigest :: "byte list \<Rightarrow> pystr" where
  "sha256_hexdigest m = map of_char (concat (map hex8 (sha256 m)))"

section \<open>utils.py: the key wrap\<close>

text \<open>
  A key is \<^verbatim>\<open>None\<close> or a string; \<^verbatim>\<open>not key\<close> holds for \<^verbatim>\<open>None\<close> and for the empty
  string. For a string, \<^verbatim>\<open>str(key)\<close> is the key itself.
\<close>

text \<open>\<^verbatim>\<open>hashlib.sha256(str(key).encode()).hexdigest()\<close>\<close>

definition key_digest :: "pystr \<Rightarrow> error + pystr" where
  "key_digest key =
     (case utf8_encode key of
        Inl e \<Rightarrow> Inl e
      | Inr bs \<Rightarrow> Inr (sha256_hexdigest bs))"

text \<open>The slices \<^verbatim>\<open>h[:16]\<close>, \<^verbatim>\<open>h[-16:]\<close> and \<^verbatim>\<open>wrapped[16:-16]\<close>.\<close>

definition first16 :: "pystr \<Rightarrow> pystr" where
  "first16 h = take 16 h"

definition last16 :: "pystr \<Rightarrow> pystr" where
  "last16 h = drop (length h - 16) h"

definition strip16 :: "pystr \<Rightarrow> pystr" where
  "strip16 wrapped = drop 16 (take (length wrapped - 16) wrapped)"

definition invalid_key :: pystr where
  "invalid_key = map of_char ''Invalid Key!''"

definition apply_key_wrap :: "pystr \<Rightarrow> pystr option \<Rightarrow> error + pystr" where
  "apply_key_wrap message key =
     (case key of
        None \<Rightarrow> Inr message
      | Some k \<Rightarrow>
          if k = [] then Inr message
          else
            (case key_digest k of
               Inl e \<Rightarrow> Inl e
             | Inr h \<Rightarrow> Inr (first16 h @ message @ last16 h)))"

definition remove_key_wrap :: "pystr \<Rightarrow> pystr option \<Rightarrow> error + pystr" where
  "remove_key_wrap wrapped key =
     (case key of
        None \<Rightarrow> Inr wrapped
      | Some k \<Rightarrow>
          if k = [] then Inr wrapped
          else
            (case key_digest k of
               Inl e \<Rightarrow> Inl e
             | Inr h \<Rightarrow>
                 if prefix (first16 h) wrapped \<and> suffix (last16 h) wrapped
                 then Inr (strip16 wrapped)
                 else Inr invalid_key))"

section \<open>utils.py: embedding and extraction\<close>

text \<open>The framed bit stream that \<^verbatim>\<open>embed_message\<close> builds before it looks at the image.\<close>

definition framed_bits :: "pystr \<Rightarrow> pystr option \<Rightarrow> error + bit list" where
  "framed_bits message key =
     (case apply_key_wrap message key of
        Inl e \<Rightarrow> Inl e
      | Inr wrapped \<Rightarrow>
          (case utf8_encode wrapped of
             Inl e \<Rightarrow> Inl e
           | Inr payload_bytes \<Rightarrow>
               let header_bits = len_prefix_bits (length payload_bytes);
                   payload_bits = text_to_bits payload_bytes
               in Inr (header_bits @ payload_bits)))"

definition total_capacity :: "image \<Rightarrow> nat" where
  "total_capacity img =
     (let h = height img; w = width img;
          b_capacity = h * w;
          dct_capacity = (h div 8) * (w div 8)
      in b_capacity + dct_capacity)"

definition embed_message :: "cv2 \<Rightarrow> image option \<Rightarrow> pystr \<Rightarrow> pystr option \<Rightarrow> error + image" where
  "embed_message cv image_bgr message key =
     (case image_bgr of
        None \<Rightarrow> Inl InvalidImageArray
      | Some img \<Rightarrow>
          if image_size img = 0 then Inl InvalidImageArray
          else
            (case framed_bits message key of
               Inl e \<Rightarrow> Inl e
             | Inr all_bits \<Rightarrow>
                 if length all_bits > total_capacity img
                 then Inl (MessageTooLarge (length all_bits) (total_capacity img))
                 else hybrid_embed cv (Some img) all_bits))"

definition pad_bits :: "bit list \<Rightarrow> int \<Rightarrow> bit list" where
  "pad_bits all_bits total_bits =
     (if int (length all_bits) < total_bits
      then all_bits @ replicate (nat (total_bits - int (length all_bits))) 0
      else all_bits)"

definition extract_message :: "cv2 \<Rightarrow> image option \<Rightarrow> pystr option \<Rightarrow> error + pystr" where
  "extract_message cv stego_bgr key =
     (case stego_bgr of
        None \<Rightarrow> Inl InvalidImageArray
      | Some img \<Rightarrow>
          if image_size img = 0 then Inl InvalidImageArray
          else
            (case hybrid_extract cv (Some img) 32 of
               Inl e \<Rightarrow> Inl e
             | Inr header_bits \<Rightarrow>
                 if length header_bits < 32 then Inl HeaderReadFailed
                 else
                   (case int_of_bits header_bits of
                      Inl e \<Rightarrow> Inl e
                    | Inr msg_len_bytes \<Rightarrow>
                        let total_bits = 32 + msg_len_bytes * 8 in
                        (case hybrid_extract cv (Some img) (nat total_bits) of
                           Inl e \<Rightarrow> Inl e
                         | Inr all_bits \<Rightarrow>
                             let payload_bits = drop 32 (pad_bits all_bits total_bits) in
                             (case bits_to_text payload_bits of
                                Inl e \<Rightarrow> Inl e
                              | Inr recovered \<Rightarrow> remove_key_wrap recovered key)))))"

section \<open>Digit strings: facts\<close>

declare bin_str.simps [simp del] dec_str.simps [simp del] byte_values.simps [simp del]

lemma digit_char_0 [simp]: "digit_char 0 = CHR ''0''"
  by (simp add: digit_char_def)

lemma digit_char_1 [simp]: "digit_char (Suc 0) = CHR ''1''"
  by (simp add: digit_char_def)

lemma bin_str_small: "n < 2 \<Longrightarrow> bin_str n = [digit_char n]"
  by (subst bin_str.simps) simp

lemma bin_str_large: "\<not> n < 2 \<Longrightarrow> bin_str n = bin_str (n div 2) @ [digit_char (n mod 2)]"
  by (subst bin_str.simps) simp

lemma digit_char_bit: "d < 2 \<Longrightarrow> digit_char d = (if d = 0 then CHR ''0'' else CHR ''1'')"
proof -
  assume "d < 2"
  then have "d = 0 \<or> d = Suc 0" by arith
  then show ?thesis by auto
qed

lemma bin_str_ok: "list_all (\<lambda>c. c = CHR ''0'' \<or> c = CHR ''1'') (bin_str n)"
proof (induction n rule: bin_str.induct)
  case (1 n)
  show ?case
  proof (cases "n < 2")
    case True
    then show ?thesis by (simp add: bin_str_small digit_char_bit)
  next
    case False
    then show ?thesis using 1 by (simp add: bin_str_large digit_char_bit)
  qed
qed

lemma bin_value_snoc: "bin_value (xs @ [c]) = 2 * bin_value xs + (if c = CHR ''1'' then 1 else 0)"
  by (simp add: bin_value_def)

lemma bin_value_bin_str: "bin_value (bin_str n) = n"
proof (induction n rule: bin_str.induct)
  case (1 n)
  show ?case
  proof (cases "n < 2")
    case True
    then show ?thesis by (simp add: bin_str_small digit_char_bit bin_value_def)
  next
    case False
    then have "bin_value (bin_str n) = 2 * (n div 2) + (if n mod 2 = 0 then 0 else 1)"
      using 1 by (simp add: bin_str_large bin_value_snoc digit_char_bit)
    then show ?thesis by presburger
  qed
qed

lemma length_bin_str_pos: "0 < length (bin_str n)"
  by (cases "n < 2") (simp_all add: bin_str_small bin_str_large)

lemma length_bin_str_le: "n < 2 ^ k \<Longrightarrow> 0 < k \<Longrightarrow> length (bin_str n) \<le> k"
proof (induction n arbitrary: k rule: bin_str.induct)
  case (1 n)
  show ?case
  proof (cases "n < 2")
    case True
    then show ?thesis using 1(3) by (simp add: bin_str_small)
  next
    case False
    obtain j where k: "k = Suc j" using 1(3) by (cases k) auto
    have "j > 0" using False 1(2) k by (cases j) auto
    moreover have "n div 2 < 2 ^ j" using 1(2) k by auto
    ultimately have "length (bin_str (n div 2)) \<le> j" using 1(1) False by blast
    then show ?thesis using False k by (simp add: bin_str_large)
  qed
qed

lemma length_bin_str_gt: "2 ^ k \<le> n \<Longrightarrow> k < length (bin_str n)"
proof (induction n arbitrary: k rule: bin_str.induct)
  case (1 n)
  show ?case
  proof (cases k)
    case 0
    then show ?thesis using length_bin_str_pos [of n] by simp
  next
    case (Suc j)
    have "(2::nat) ^ 1 \<le> 2 ^ k" unfolding Suc by simp
    then have big: "\<not> n < 2" using 1(2) by simp
    from Suc have "2 ^ j \<le> n div 2" using 1(2) by auto
    then have "j < length (bin_str (n div 2))" using 1(1) big by blast
    then show ?thesis using big Suc by (simp add: bin_str_large)
  qed
qed

lemma length_format_b: "n < 2 ^ w \<Longrightarrow> 0 < w \<Longrightarrow> length (format_b w n) = w"
  using length_bin_str_le [of n w] by (simp add: format_b_def)

lemma bin_value_zeros: "bin_value (replicate k (CHR ''0'') @ ds) = bin_value ds"
  by (induction k) (simp_all add: bin_value_def)

lemma bin_value_format_b: "bin_value (format_b w n) = n"
  by (simp add: format_b_def bin_value_zeros bin_value_bin_str)

lemma format_b_ok: "list_all (\<lambda>c. c = CHR ''0'' \<or> c = CHR ''1'') (format_b w n)"
proof -
  have "list_all (\<lambda>c. c = CHR ''0'' \<or> c = CHR ''1'') (replicate (w - length (bin_str n)) (CHR ''0''))"
    by (simp add: list_all_iff)
  then show ?thesis
    unfolding format_b_def list_all_append using bin_str_ok [of n] by (rule conjI)
qed

lemma int_of_digit_01 [simp]: "int_of_digit (CHR ''0'') = 0" "int_of_digit (CHR ''1'') = 1"
  by (simp_all add: int_of_digit_def)

text \<open>The value of a digit string is the weighted sum of its digits, most significant first.\<close>

lemma bin_value_sum:
  "list_all (\<lambda>c. c = CHR ''0'' \<or> c = CHR ''1'') ds \<Longrightarrow>
   int (bin_value ds) = (\<Sum>i<length ds. int_of_digit (ds ! i) * 2 ^ (length ds - 1 - i))"
proof (induction ds rule: rev_induct)
  case Nil
  then show ?case by (simp add: bin_value_def)
next
  case (snoc c ds)
  have c: "c = CHR ''0'' \<or> c = CHR ''1''" using snoc.prems by simp
  have ih: "int (bin_value ds) = (\<Sum>i<length ds. int_of_digit (ds ! i) * 2 ^ (length ds - 1 - i))"
    using snoc by simp
  have "(\<Sum>i<length ds. int_of_digit ((ds @ [c]) ! i) * 2 ^ (length ds - i))
      = (\<Sum>i<length ds. 2 * (int_of_digit (ds ! i) * 2 ^ (length ds - 1 - i)))"
  proof (rule sum.cong)
    fix i assume "i \<in> {..<length ds}"
    then have i: "i < length ds" by simp
    then have "length ds - i = Suc (length ds - 1 - i)" by arith
    then show "int_of_digit ((ds @ [c]) ! i) * 2 ^ (length ds - i) = 2 * (int_of_digit (ds ! i) * 2 ^ (length ds - 1 - i))"
      using i by (simp add: nth_append)
  qed simp
  also have "\<dots> = 2 * int (bin_value ds)"
    by (simp add: ih sum_distrib_left)
  finally show ?case using c by (auto simp: bin_value_snoc)
qed

lemma length_len_prefix_bits: "n < 2 ^ 32 \<Longrightarrow> length (len_prefix_bits n) = 32"
  using length_format_b [of n 32] by (simp only: len_prefix_bits_def length_map)

lemma len_prefix_bits_01: "list_all (\<lambda>b. b = 0 \<or> b = 1) (len_prefix_bits n)"
proof -
  have "\<And>c. c = CHR ''0'' \<or> c = CHR ''1'' \<Longrightarrow> int_of_digit c = 0 \<or> int_of_digit c = 1"
    by auto
  then show ?thesis
    using format_b_ok [of 32 n] unfolding len_prefix_bits_def list_all_iff by auto
qed

lemma len_prefix_bits_value:
  assumes "n < 2 ^ 32"
  shows "(\<Sum>i<32. len_prefix_bits n ! i * 2 ^ (31 - i)) = int n"
proof -
  let ?ds = "format_b 32 n"
  have len: "length ?ds = 32" using assms length_format_b [of n 32] by simp
  have ok: "list_all (\<lambda>c. c = CHR ''0'' \<or> c = CHR ''1'') ?ds" by (rule format_b_ok)
  have "int n = int (bin_value ?ds)" by (simp only: bin_value_format_b)
  also have "\<dots> = (\<Sum>i<length ?ds. int_of_digit (?ds ! i) * 2 ^ (length ?ds - 1 - i))"
    using ok by (rule bin_value_sum)
  also have "\<dots> = (\<Sum>i<32. int_of_digit (?ds ! i) * 2 ^ (31 - i))"
    by (simp only: len) simp
  also have "\<dots> = (\<Sum>i<32. len_prefix_bits n ! i * 2 ^ (31 - i))"
  proof (rule sum.cong)
    fix i :: nat assume "i \<in> {..<32}"
    then have "i < length ?ds" by (simp only: len lessThan_iff)
    then show "int_of_digit (?ds ! i) * 2 ^ (31 - i) = len_prefix_bits n ! i * 2 ^ (31 - i)"
      by (simp only: len_prefix_bits_def nth_map)
  qed (rule refl)
  finally show ?thesis by (rule sym)
qed

section \<open>The length prefix (C8)\<close>

lemma bin_str_pow2: "bin_str (2 ^ k) = CHR ''1'' # replicate k (CHR ''0'')"
proof (induction k)
  case 0
  then show ?case by (simp add: bin_str_small)
next
  case (Suc k)
  have "\<not> (2::nat) ^ Suc k < 2" by simp
  then have "bin_str (2 ^ Suc k) = bin_str (2 ^ Suc k div 2) @ [digit_char (2 ^ Suc k mod 2)]"
    by (rule bin_str_large)
  then show ?case using Suc by (simp add: replicate_append_same)
qed

lemma length_len_prefix_bits_pow2: "length (len_prefix_bits (2 ^ 32)) = 33"
proof -
  have "length (bin_str (2 ^ 32)) = 33"
    by (simp only: bin_str_pow2 length_Cons length_replicate)
  then show ?thesis
    by (simp only: len_prefix_bits_def format_b_def length_map length_append length_replicate)
qed


text \<open>
  C8, for byte counts that fit: for every byte count below \<open>2\<^sup>3\<^sup>2\<close> the length prefix
  has exactly 32 bits, each 0 or 1, and read most significant bit first they are the
  binary encoding of the count.
\<close>

theorem len_prefix_bits_32:
  assumes "n < 2 ^ 32"
  shows "length (len_prefix_bits n) = 32
       \<and> list_all (\<lambda>b. b = 0 \<or> b = 1) (len_prefix_bits n)
       \<and> (\<Sum>i<32. len_prefix_bits n ! i * 2 ^ (31 - i)) = int n"
  using assms length_len_prefix_bits len_prefix_bits_01 len_prefix_bits_value by blast

theorem len_prefix_bits_32_witness:
  "(2::nat) < 2 ^ 32 \<and> length (len_prefix_bits 2) = 32
     \<and> list_all (\<lambda>b. b = 0 \<or> b = 1) (len_prefix_bits 2)
     \<and> (\<Sum>i<32. len_prefix_bits 2 ! i * 2 ^ (31 - i)) = int 2"
proof -
  have h: "(2::nat) < 2 ^ 32" by simp
  show ?thesis using h len_prefix_bits_32 [OF h] by blast
qed

text \<open>
  C8 as stated, for every byte count, fails: \<^verbatim>\<open>format(n, '032b')\<close> pads to a minimum
  width and does not cut, so the byte count \<open>2\<^sup>3\<^sup>2\<close> gets 33 bits.
\<close>

theorem len_prefix_bits_overflow: "length (len_prefix_bits (2 ^ 32)) = 33"
  by (rule length_len_prefix_bits_pow2)

section \<open>The nudge of the coefficient (C3)\<close>

lemma py_round_half: "py_round (1 / 2) = 0"
  by (simp add: py_round_def)

lemma py_round_three_halves: "py_round (3 / 2) = 2"
proof -
  have "\<lfloor>3 / 2 :: real\<rfloor> = 1" by linarith
  then show ?thesis by (simp add: py_round_def)
qed

lemma nudge_half: "nudge (1 / 2) = 3 / 2"
  by (simp add: nudge_def)

lemma py_round_add_1:
  assumes "x - of_int \<lfloor>x\<rfloor> \<noteq> 1 / 2"
  shows "py_round (x + 1) = py_round x + 1"
proof -
  have f: "\<lfloor>x + 1\<rfloor> = \<lfloor>x\<rfloor> + 1" by simp
  show ?thesis using assms unfolding py_round_def Let_def f by auto
qed

lemma py_round_sub_1:
  assumes "x - of_int \<lfloor>x\<rfloor> \<noteq> 1 / 2"
  shows "py_round (x - 1) = py_round x - 1"
proof -
  have f: "\<lfloor>x - 1\<rfloor> = \<lfloor>x\<rfloor> - 1" by simp
  show ?thesis using assms unfolding py_round_def Let_def f by auto
qed

lemma and_1_flip: "(k + 1) AND 1 = 1 - (k AND (1::int))" "(k - 1) AND 1 = 1 - (k AND (1::int))"
  by (simp_all add: and_one_eq) presburger+

lemma nudge_flips_parity_off_tie:
  assumes "c - of_int \<lfloor>c\<rfloor> \<noteq> 1 / 2"
  shows "coeff_parity (nudge c) = 1 - coeff_parity c"
  using assms by (simp add: coeff_parity_def nudge_def py_round_add_1 py_round_sub_1 and_1_flip)

text \<open>
  C3 at a tie: for the coefficient \<open>0.5\<close> and the desired bit 1 the rounded parity is 0,
  the code adds \<open>1.0\<close>, and the rounded parity of \<open>1.5\<close> is 0 again, because
  \<^verbatim>\<open>round\<close> takes both ties to the even neighbour. The nudge flips the parity of
  every coefficient that is not halfway between two integers
  (\<open>nudge_flips_parity_off_tie\<close>), and of none that is.
\<close>

theorem nudge_keeps_parity_at_tie:
  "coeff_parity (1 / 2) = 0 \<and> nudge (1 / 2) = 3 / 2 \<and> coeff_parity (nudge (1 / 2)) = 0"
  by (simp add: coeff_parity_def py_round_half nudge_half py_round_three_halves)

section \<open>One bit through one block of the DCT plane (C2)\<close>

lemma to_float_0 [simp]: "to_float 0 = 0"
  by (simp add: to_float_def)

lemma to_uint8_small: "v < 1 \<Longrightarrow> to_uint8 v = 0"
proof -
  assume "v < 1"
  then have "\<lfloor>max 0 (min 255 v)\<rfloor> = 0" by (simp add: floor_eq_iff max_def min_def)
  then show ?thesis by (simp add: to_uint8_def)
qed

lemma coeff_parity_0 [simp]: "coeff_parity 0 = 0"
  by (simp add: coeff_parity_def py_round_def)

lemma nudge_0 [simp]: "nudge 0 = 1"
  by (simp add: nudge_def)

lemma block_coords_1_1: "block_coords (Suc 0) (Suc 0) = [(0, 0)]"
  by (simp add: block_coords_def)

lemma in_block_00: "k < 64 \<Longrightarrow> in_block 0 0 (k div 8) (k mod 8)"
  by (simp add: in_block_def less_mult_imp_div_less)

lemma dct_embed_zero_block:
  assumes c0: "dct cv (read_block (replicate 64 0) 8 0 0) 4 4 = 0"
    and small: "\<And>i j. i < 8 \<Longrightarrow> j < 8 \<Longrightarrow>
                  idct cv (set_coeff (dct cv (read_block (replicate 64 0) 8 0 0)) 4 4 1) i j < 1"
  shows "dct_embed cv (zero_channel 8 8) [1] 0 = Inr (zero_channel 8 8)"
proof -
  let ?recon = "idct cv (set_coeff (dct cv (read_block (replicate 64 0) 8 0 0)) 4 4 1)"
  have loop: "dct_embed_blocks cv 8 [1] [(0, 0)] 0 (replicate 64 0)
              = write_block (replicate 64 0) 8 0 0 ?recon"
    by (simp add: Let_def c0)
  have "map to_uint8 (write_block (replicate 64 0) 8 0 0 ?recon) = replicate 64 0"
  proof (rule nth_equalityI)
    show "length (map to_uint8 (write_block (replicate 64 0) 8 0 0 ?recon)) = length (replicate 64 (0::u8))"
      by (simp add: write_block_def)
  next
    fix k assume "k < length (map to_uint8 (write_block (replicate 64 0) 8 0 0 ?recon))"
    then have k: "k < 64" by (simp add: write_block_def)
    then have "k div 8 < 8" "k mod 8 < 8" by (simp_all add: less_mult_imp_div_less)
    then have "?recon (k div 8) (k mod 8) < 1" by (rule small)
    then show "map to_uint8 (write_block (replicate 64 0) 8 0 0 ?recon) ! k = replicate 64 (0::u8) ! k"
      using k by (simp add: write_block_def in_block_00 to_uint8_small)
  qed
  then show ?thesis
    by (simp add: dct_embed_def zero_channel_def Let_def block_coords_1_1 loop del: dct_embed_blocks.simps)
qed

lemma dct_extract_zero_block:
  assumes c0: "dct cv (read_block (replicate 64 0) 8 0 0) 4 4 = 0"
  shows "dct_extract cv (zero_channel 8 8) 1 0 = [0]"
  by (simp add: dct_extract_def zero_channel_def Let_def block_coords_1_1 c0)

lemma exact_dct_zero:
  assumes "\<And>x y. x < 8 \<Longrightarrow> y < 8 \<Longrightarrow> f x y = 0"
  shows "exact_dct f u v = 0"
proof -
  have "(\<Sum>x<8. \<Sum>y<8. f x y * dct_cos x u * dct_cos y v) = (\<Sum>x<8::nat. \<Sum>y<8::nat. 0)"
    by (intro sum.cong refl) (simp add: assms)
  then show ?thesis by (simp add: exact_dct_def)
qed

lemma read_block_zero: "x < 8 \<Longrightarrow> y < 8 \<Longrightarrow> read_block (replicate 64 0) 8 0 0 x y = 0"
proof -
  assume "x < 8" "y < 8"
  then have "x * 8 + y < 64" by arith
  then show ?thesis by (simp add: read_block_def)
qed

lemma exact_idct_spike:
  assumes "\<And>u v. u < 8 \<Longrightarrow> v < 8 \<Longrightarrow> c u v = 0"
  shows "exact_idct (set_coeff c 4 4 a) x y = a * dct_cos x 4 * dct_cos y 4 / 4"
proof -
  have inner: "\<And>u. u < 8 \<Longrightarrow>
      (\<Sum>v<8. dct_alpha u * dct_alpha v * set_coeff c 4 4 a u v * dct_cos x u * dct_cos y v)
      = (if u = 4 then dct_alpha 4 * dct_alpha 4 * a * dct_cos x 4 * dct_cos y 4 else 0)"
  proof -
    fix u :: nat assume u: "u < 8"
    have "(\<Sum>v<8. dct_alpha u * dct_alpha v * set_coeff c 4 4 a u v * dct_cos x u * dct_cos y v)
        = (\<Sum>v<8::nat. if v = 4 then dct_alpha u * dct_alpha 4 * set_coeff c 4 4 a u 4 * dct_cos x u * dct_cos y 4 else 0)"
      by (intro sum.cong refl) (use u assms in \<open>auto simp: set_coeff_def\<close>)
    also have "\<dots> = dct_alpha u * dct_alpha 4 * set_coeff c 4 4 a u 4 * dct_cos x u * dct_cos y 4"
      by (simp add: sum.delta')
    finally show "(\<Sum>v<8. dct_alpha u * dct_alpha v * set_coeff c 4 4 a u v * dct_cos x u * dct_cos y v)
      = (if u = 4 then dct_alpha 4 * dct_alpha 4 * a * dct_cos x 4 * dct_cos y 4 else 0)"
      using u assms by (auto simp: set_coeff_def)
  qed
  have "exact_idct (set_coeff c 4 4 a) x y
      = (\<Sum>u<8::nat. if u = 4 then dct_alpha 4 * dct_alpha 4 * a * dct_cos x 4 * dct_cos y 4 else 0)"
    unfolding exact_idct_def by (intro sum.cong refl) (simp add: inner)
  also have "\<dots> = dct_alpha 4 * dct_alpha 4 * a * dct_cos x 4 * dct_cos y 4"
    by (simp add: sum.delta')
  finally show ?thesis by (simp add: dct_alpha_def)
qed

lemma dct_cos_bound: "\<bar>dct_cos x u * dct_cos y v\<bar> \<le> 1"
proof -
  have "\<bar>dct_cos x u\<bar> \<le> 1" "\<bar>dct_cos y v\<bar> \<le> 1" by (simp_all add: dct_cos_def)
  then have "\<bar>dct_cos x u\<bar> * \<bar>dct_cos y v\<bar> \<le> 1 * 1"
    by (intro mult_mono) simp_all
  then show ?thesis by (simp add: abs_mult)
qed

lemma exact_spike_small:
  "exact_idct (set_coeff (exact_dct (read_block (replicate 64 0) 8 0 0)) 4 4 1) i j < 1"
proof -
  have "exact_idct (set_coeff (exact_dct (read_block (replicate 64 0) 8 0 0)) 4 4 1) i j
        = 1 * dct_cos i 4 * dct_cos j 4 / 4"
    by (rule exact_idct_spike) (simp add: exact_dct_zero read_block_zero)
  moreover have "dct_cos i 4 * dct_cos j 4 \<le> 1"
    using dct_cos_bound [of i 4 j 4] by linarith
  ultimately show ?thesis by simp
qed

text \<open>
  C2 at the all-zero block and the bit 1: the coefficient at (4, 4) is 0, so the code
  sets it to 1; the inverse transform gives samples of magnitude at most 1/4, which
  \<^verbatim>\<open>np.clip(embedded, 0, 255).astype(np.uint8)\<close> cuts to 0. The channel comes back
  unchanged and \<^verbatim>\<open>dct_extract\<close> reads the bit 0.
\<close>

theorem dct_zero_block_loses_bit:
  "dct_embed exact_cv (zero_channel 8 8) [1] 0 = Inr (zero_channel 8 8)
   \<and> dct_extract exact_cv (zero_channel 8 8) 1 0 = [0]"
proof -
  have c0: "dct exact_cv (read_block (replicate 64 0) 8 0 0) 4 4 = 0"
    by (simp add: exact_cv_def exact_dct_zero read_block_zero)
  have small: "\<And>i j. i < 8 \<Longrightarrow> j < 8 \<Longrightarrow>
      idct exact_cv (set_coeff (dct exact_cv (read_block (replicate 64 0) 8 0 0)) 4 4 1) i j < 1"
    by (simp add: exact_cv_def exact_spike_small)
  show ?thesis
    using dct_embed_zero_block [of exact_cv, OF c0 small] dct_extract_zero_block [of exact_cv, OF c0]
    by simp
qed

end
